theory Spec2Isabelle
  imports Complex_Main "HOL-Library.Sublist"
begin

section \<open>Values, exceptions and the simulated host\<close>

text \<open>
  The program is \<^verbatim>\<open>run.py\<close>: a collector (\<^verbatim>\<open>get_disk_metrics\<close>, \<^verbatim>\<open>collect_metrics\<close>)
  that reads the host through \<^verbatim>\<open>psutil\<close>, and four presenters with a command-line
  dispatch.

  A Python \<^verbatim>\<open>str\<close> is a \<open>string\<close>: the UTF-8 bytes of its characters. A Python
  \<^verbatim>\<open>int\<close> is an \<open>int\<close>. A Python \<^verbatim>\<open>float\<close> is a double, kept as the rational number it
  denotes; every operation on floats is the exact operation followed by the rounding of
  binary floating point (\<open>nearest_double\<close> below). NaN, infinities and negative zero have
  no counterpart here, and no operation of the program overflows on the byte counts of an
  operating system, which are below \<open>2^64\<close>.
\<close>

datatype pyval = VNone | VInt int | VFloat rat | VStr string

datatype py_exc =
    PermissionError string
  | FileNotFoundError string
  | AttributeError string
  | KeyError string
  | TypeError string
  | ValueError string
  | OtherException string

text \<open>\<^verbatim>\<open>str(e)\<close>; a \<^verbatim>\<open>KeyError\<close> shows the \<^verbatim>\<open>repr\<close> of its key.\<close>

fun str_exc :: "py_exc \<Rightarrow> string" where
  "str_exc (PermissionError s) = s"
| "str_exc (FileNotFoundError s) = s"
| "str_exc (AttributeError s) = s"
| "str_exc (KeyError s) = [CHR 0x27] @ s @ [CHR 0x27]"
| "str_exc (TypeError s) = s"
| "str_exc (ValueError s) = s"
| "str_exc (OtherException s) = s"

text \<open>The tuples \<^verbatim>\<open>psutil\<close> returns, with the fields the program reads.\<close>

record sdiskpart =
  device :: string
  mountpoint :: string
  fstype :: string

record sdiskusage =
  du_total :: int
  du_used :: int
  du_free :: int
  du_percent :: rat

record svmem =
  vm_total :: int
  vm_available :: int
  vm_used :: int
  vm_percent :: rat

record sswap =
  sw_total :: int
  sw_used :: int
  sw_percent :: rat

record sdiskio =
  read_bytes :: int
  write_bytes :: int

record snetio =
  bytes_sent :: int
  bytes_recv :: int

text \<open>
  The host is what every operating-system facility answers during one invocation: a value,
  or the exception the call raises. \<open>os_now\<close> is \<^verbatim>\<open>datetime.now().isoformat()\<close>. \<^verbatim>\<open>cpu_freq\<close>, \<^verbatim>\<open>disk_io_counters\<close> and
  \<^verbatim>\<open>net_io_counters\<close> may answer \<^verbatim>\<open>None\<close>, \<^verbatim>\<open>cpu_count\<close> too.
\<close>

record host =
  os_now :: string
  os_gethostname :: "py_exc + string"
  os_cpu_percent :: "py_exc + rat"
  os_cpu_percent_percpu :: "py_exc + rat list"
  os_cpu_count :: "py_exc + int option"
  os_cpu_freq :: "py_exc + rat option"
  os_virtual_memory :: "py_exc + svmem"
  os_swap_memory :: "py_exc + sswap"
  os_disk_partitions :: "py_exc + sdiskpart list"
  os_disk_usage :: "string \<Rightarrow> py_exc + sdiskusage"
  os_disk_io_counters :: "py_exc + sdiskio option"
  os_net_io_counters :: "py_exc + snetio option"
  os_getloadavg :: "py_exc + rat \<times> rat \<times> rat"
  os_pids :: "py_exc + int list"

text \<open>
  The effects of the process: the operating-system queries it made, in order, and what it
  printed on each stream (one element for each \<^verbatim>\<open>print\<close>).
\<close>

datatype os_call =
    Q_now
  | Q_cpu_percent bool
  | Q_cpu_count
  | Q_cpu_freq
  | Q_virtual_memory
  | Q_swap_memory
  | Q_disk_partitions
  | Q_disk_usage string
  | Q_disk_io_counters
  | Q_net_io_counters
  | Q_getloadavg
  | Q_pids
  | Q_gethostname

record io =
  calls :: "os_call list"
  stdout :: "string list"
  stderr :: "string list"

type_synonym 'a act = "io \<Rightarrow> (py_exc + 'a) \<times> io"

definition ret :: "'a \<Rightarrow> 'a act" where
  "ret x s = (Inr x, s)"

definition raise :: "py_exc \<Rightarrow> 'a act" where
  "raise e s = (Inl e, s)"

definition seq :: "'a act \<Rightarrow> ('a \<Rightarrow> 'b act) \<Rightarrow> 'b act" where
  "seq m f s = (case m s of (Inl e, s') \<Rightarrow> (Inl e, s') | (Inr x, s') \<Rightarrow> f x s')"

definition query :: "os_call \<Rightarrow> py_exc + 'a \<Rightarrow> 'a act" where
  "query q r s = (r, s\<lparr>calls := calls s @ [q]\<rparr>)"

definition print_out :: "string \<Rightarrow> io \<Rightarrow> io" where
  "print_out line s = s\<lparr>stdout := stdout s @ [line]\<rparr>"

definition print_err :: "string \<Rightarrow> io \<Rightarrow> io" where
  "print_err line s = s\<lparr>stderr := stderr s @ [line]\<rparr>"

section \<open>Numbers and strings of the Python runtime\<close>

definition round_half_even :: "rat \<Rightarrow> int" where
  "round_half_even x =
     (let f = \<lfloor>x\<rfloor>; d = x - of_int f
      in if d < 1 / 2 then f else if 1 / 2 < d then f + 1 else if even f then f else f + 1)"

text \<open>
  The double nearest to a rational, ties to the even significand. \<open>bit_length\<close> is
  \<^verbatim>\<open>int.bit_length\<close> on a positive int; \<open>binary_exponent x\<close> is the \<open>e\<close> with \<open>2^e \<le> |x| < 2^(e+1)\<close>. A double
  has 53 significant bits, so its last place is worth \<open>2^(e-52)\<close>, and \<open>2^(-1074)\<close> below the
  normal range.
\<close>

function bit_length :: "int \<Rightarrow> int" where
  "bit_length n = (if n \<le> 0 then 0 else 1 + bit_length (n div 2))"
  by pat_completeness auto

termination
  by (relation "measure nat") auto

declare bit_length.simps [simp del]

definition pow2 :: "int \<Rightarrow> rat" where
  "pow2 e = (if 0 \<le> e then 2 ^ nat e else 1 / 2 ^ nat (- e))"

definition binary_exponent :: "rat \<Rightarrow> int" where
  "binary_exponent x =
     (case quotient_of \<bar>x\<bar> of
        (p, q) \<Rightarrow>
          (let d = bit_length p - bit_length q
           in if pow2 d \<le> \<bar>x\<bar> then d else d - 1))"

definition nearest_double :: "rat \<Rightarrow> rat" where
  "nearest_double x =
     (if x = 0 then 0
      else (let ulp = pow2 (max (binary_exponent x) (- 1022) - 52)
            in of_int (round_half_even (x / ulp)) * ulp))"

text \<open>
  \<^verbatim>\<open>round(x, 2)\<close> on a float: the value of the double \<open>x\<close> is rounded half to even at the
  second decimal, and the result is the double nearest to that decimal. A reading that is
  not a double stands for the double nearest to it.
\<close>

definition round2 :: "rat \<Rightarrow> rat" where
  "round2 x = nearest_double (of_int (round_half_even (nearest_double x * 100)) / 100)"

text \<open>
  \<^verbatim>\<open>n / (1024**3)\<close> and \<^verbatim>\<open>n / (1024**2)\<close>: true division of two ints, which is the double
  nearest to the quotient.
\<close>

definition per_gib :: "int \<Rightarrow> rat" where
  "per_gib n = nearest_double (of_int n / (1024 ^ 3))"

definition per_mib :: "int \<Rightarrow> rat" where
  "per_mib n = nearest_double (of_int n / (1024 ^ 2))"

text \<open>The decimal digits of an int that is not negative.\<close>

definition digit_char :: "int \<Rightarrow> char" where
  "digit_char d = char_of (48 + d)"

function str_nat :: "int \<Rightarrow> string" where
  "str_nat n = (if n < 10 then [digit_char n] else str_nat (n div 10) @ [digit_char (n mod 10)])"
  by pat_completeness auto

termination
  by (relation "measure nat") auto

declare str_nat.simps [simp del]

definition str_int :: "int \<Rightarrow> string" where
  "str_int i = (if i < 0 then CHR ''-'' # str_nat (- i) else str_nat i)"

text \<open>
  \<^verbatim>\<open>format(x, '.Nf')\<close>: the value of the double \<open>x\<close> rounded half to even at \<open>d\<close> decimals,
  which are always shown. \<open>pad d s\<close> fills the fraction with leading zeros.
\<close>

definition pad :: "nat \<Rightarrow> string \<Rightarrow> string" where
  "pad d s = replicate (d - length s) CHR ''0'' @ s"

definition fmt_fixed :: "nat \<Rightarrow> rat \<Rightarrow> string" where
  "fmt_fixed d x =
     (let y = nearest_double x;
          n = round_half_even (\<bar>y\<bar> * 10 ^ d);
          body = str_nat (n div 10 ^ d) @
                 (if d = 0 then [] else CHR ''.'' # pad d (str_nat (n mod 10 ^ d)))
      in if y < 0 then CHR ''-'' # body else body)"

text \<open>
  \<^verbatim>\<open>str(x)\<close> of a float that \<^verbatim>\<open>round(_, 2)\<close> returned, of magnitude below \<open>10^14\<close>:
  the shortest decimal that reads back as \<open>x\<close>, with at least one digit after the point.
  It has at most two decimals, since \<open>x\<close> is the double nearest to a decimal with two.
\<close>

definition str_float :: "rat \<Rightarrow> string" where
  "str_float x =
     (let y = nearest_double x;
          n = round_half_even (\<bar>y\<bar> * 100);
          frac = n mod 100;
          body = str_nat (n div 100) @ CHR ''.'' #
                 (if frac mod 10 = 0 then [digit_char (frac div 10)]
                  else [digit_char (frac div 10), digit_char (frac mod 10)])
      in if y < 0 then CHR ''-'' # body else body)"

text \<open>\<^verbatim>\<open>str(value)\<close>, as an f-string field without a format does it.\<close>

fun str_val :: "pyval \<Rightarrow> string" where
  "str_val VNone = ''None''"
| "str_val (VInt i) = str_int i"
| "str_val (VFloat x) = str_float x"
| "str_val (VStr s) = s"

text \<open>\<^verbatim>\<open>s.replace(old, new)\<close> for one-character \<open>old\<close> and \<open>new\<close>.\<close>

definition replace_char :: "char \<Rightarrow> char \<Rightarrow> string \<Rightarrow> string" where
  "replace_char old new s = map (\<lambda>c. if c = old then new else c) s"

text \<open>
  \<^verbatim>\<open>s.strip(ch)\<close> for one character, as the runtime does it: \<open>i\<close> moves right over the
  leading occurrences, \<open>j\<close> moves left over the trailing ones without passing \<open>i\<close>, and the
  result is the slice \<open>s[i:j]\<close>.
\<close>

definition strip_char :: "char \<Rightarrow> string \<Rightarrow> string" where
  "strip_char ch s =
     (let i = length (takeWhile (\<lambda>c. c = ch) s);
          j = length s - length (takeWhile (\<lambda>c. c = ch) (rev (drop i s)))
      in take (j - i) (drop i s))"

text \<open>\<^verbatim>\<open>os.path.basename(p)\<close>: what follows the last slash.\<close>

definition basename :: "string \<Rightarrow> string" where
  "basename p = rev (takeWhile (\<lambda>c. c \<noteq> CHR ''/'') (rev p))"

text \<open>\<^verbatim>\<open>sep.join(xs)\<close>.\<close>

fun join :: "string \<Rightarrow> string list \<Rightarrow> string" where
  "join sep [] = []"
| "join sep [x] = x"
| "join sep (x # y # ys) = x @ sep @ join sep (y # ys)"

section \<open>Dictionaries\<close>

text \<open>
  A \<^verbatim>\<open>dict\<close> keeps insertion order: it is an association list with distinct keys.
  \<^verbatim>\<open>d[k] = v\<close> replaces the value of a key that is present, at its place, and appends a
  new key at the end.
\<close>

fun setitem :: "'k \<Rightarrow> 'v \<Rightarrow> ('k \<times> 'v) list \<Rightarrow> ('k \<times> 'v) list" where
  "setitem k v [] = [(k, v)]"
| "setitem k v ((k', v') # d) = (if k' = k then (k, v) # d else (k', v') # setitem k v d)"

definition getitem :: "(string \<times> 'v) list \<Rightarrow> string \<Rightarrow> py_exc + 'v" where
  "getitem d k = (case map_of d k of None \<Rightarrow> Inl (KeyError k) | Some v \<Rightarrow> Inr v)"

definition keys :: "('k \<times> 'v) list \<Rightarrow> 'k list" where
  "keys d = map fst d"

section \<open>The collector\<close>

subsection \<open>\<^verbatim>\<open>get_disk_metrics\<close>\<close>

record disk_info =
  di_mountpoint :: string
  di_device :: string
  di_fstype :: string
  di_total_gb :: rat
  di_used_gb :: rat
  di_free_gb :: rat
  di_percent :: rat
  di_total_bytes :: int
  di_used_bytes :: int
  di_free_bytes :: int

definition special_fstypes :: "string list" where
  "special_fstypes = [''tmpfs'', ''devtmpfs'', ''squashfs'', ''overlay'', ''proc'', ''sysfs'', ''cgroup'']"

definition mount_name :: "string \<Rightarrow> string" where
  "mount_name mp =
     (let name = strip_char CHR ''_'' (replace_char CHR ''.'' CHR ''_'' (replace_char CHR ''/'' CHR ''_'' mp))
      in if name = [] then ''root'' else name)"

definition make_disk_info :: "sdiskpart \<Rightarrow> sdiskusage \<Rightarrow> disk_info" where
  "make_disk_info part usage =
     \<lparr> di_mountpoint = mountpoint part,
       di_device = basename (device part),
       di_fstype = fstype part,
       di_total_gb = round2 (per_gib (du_total usage)),
       di_used_gb = round2 (per_gib (du_used usage)),
       di_free_gb = round2 (per_gib (du_free usage)),
       di_percent = round2 (du_percent usage),
       di_total_bytes = du_total usage,
       di_used_bytes = du_used usage,
       di_free_bytes = du_free usage \<rparr>"

text \<open>
  The loop over the partitions. Nothing leaves it by an exception: the two silent handlers
  and the logging one end every failed iteration with \<^verbatim>\<open>continue\<close>.
\<close>

fun disk_loop ::
  "host \<Rightarrow> sdiskpart list \<Rightarrow> (string \<times> disk_info) list \<Rightarrow> io \<Rightarrow> (string \<times> disk_info) list \<times> io"
where
  "disk_loop h [] disk_metrics s = (disk_metrics, s)"
| "disk_loop h (part # partitions) disk_metrics s =
     (if fstype part \<in> set special_fstypes then disk_loop h partitions disk_metrics s
      else
        (case query (Q_disk_usage (mountpoint part)) (os_disk_usage h (mountpoint part)) s of
           (Inr usage, s') \<Rightarrow>
             disk_loop h partitions
               (setitem (mount_name (mountpoint part)) (make_disk_info part usage)
                  disk_metrics) s'
         | (Inl (PermissionError msg), s') \<Rightarrow> disk_loop h partitions disk_metrics s'
         | (Inl (FileNotFoundError msg), s') \<Rightarrow> disk_loop h partitions disk_metrics s'
         | (Inl e, s') \<Rightarrow>
             disk_loop h partitions disk_metrics
               (print_err (''Error reading '' @ mountpoint part @ '': '' @ str_exc e) s')))"

definition get_disk_metrics :: "host \<Rightarrow> (string \<times> disk_info) list act" where
  "get_disk_metrics h =
     seq (query Q_disk_partitions (os_disk_partitions h))
       (\<lambda>partitions s. case disk_loop h partitions [] s of (disk_metrics, s') \<Rightarrow> (Inr disk_metrics, s'))"

subsection \<open>\<^verbatim>\<open>collect_metrics\<close>\<close>

text \<open>The dictionary literal, with its twenty fixed keys in the order of the source.\<close>

definition base_metrics ::
  "string \<Rightarrow> string \<Rightarrow> rat \<Rightarrow> int option \<Rightarrow> rat option \<Rightarrow> rat \<times> rat \<times> rat \<Rightarrow> svmem \<Rightarrow> sswap \<Rightarrow>
   sdiskio \<Rightarrow> snetio \<Rightarrow> int \<Rightarrow> (string \<times> pyval) list"
where
  "base_metrics timestamp hostname cpu_percent cpu_count cpu_freq load_avg memory swap disk_io net_io
     process_count =
     [(''timestamp'', VStr timestamp),
      (''hostname'', VStr hostname),
      (''cpu_percent'', VFloat (round2 cpu_percent)),
      (''cpu_count'', case cpu_count of None \<Rightarrow> VNone | Some n \<Rightarrow> VInt n),
      (''cpu_freq_current'', case cpu_freq of None \<Rightarrow> VNone | Some current \<Rightarrow> VFloat (round2 current)),
      (''load_1min'', VFloat (round2 (fst load_avg))),
      (''load_5min'', VFloat (round2 (fst (snd load_avg)))),
      (''load_15min'', VFloat (round2 (snd (snd load_avg)))),
      (''memory_total_gb'', VFloat (round2 (per_gib (vm_total memory)))),
      (''memory_available_gb'', VFloat (round2 (per_gib (vm_available memory)))),
      (''memory_used_gb'', VFloat (round2 (per_gib (vm_used memory)))),
      (''memory_percent'', VFloat (round2 (vm_percent memory))),
      (''swap_total_gb'', if sw_total swap > 0 then VFloat (round2 (per_gib (sw_total swap))) else VInt 0),
      (''swap_used_gb'', if sw_total swap > 0 then VFloat (round2 (per_gib (sw_used swap))) else VInt 0),
      (''swap_percent'', if sw_total swap > 0 then VFloat (round2 (sw_percent swap)) else VInt 0),
      (''disk_io_read_mb'', VFloat (round2 (per_mib (read_bytes disk_io)))),
      (''disk_io_write_mb'', VFloat (round2 (per_mib (write_bytes disk_io)))),
      (''net_mb_sent'', VFloat (round2 (per_mib (bytes_sent net_io)))),
      (''net_mb_recv'', VFloat (round2 (per_mib (bytes_recv net_io)))),
      (''process_count'', VInt process_count)]"

text \<open>The f-string \<^verbatim>\<open>f'disk_{mount_name}_total_gb'\<close> and its five siblings.\<close>

definition disk_key :: "string \<Rightarrow> string \<Rightarrow> string" where
  "disk_key name sfx = ''disk_'' @ name @ sfx"

text \<open>The six assignments of one iteration of the loop over \<^verbatim>\<open>disk_metrics.items()\<close>.\<close>

definition add_disk_keys :: "string \<Rightarrow> disk_info \<Rightarrow> (string \<times> pyval) list \<Rightarrow> (string \<times> pyval) list" where
  "add_disk_keys name info metrics =
     setitem (disk_key name ''_fstype'') (VStr (di_fstype info))
       (setitem (disk_key name ''_device'') (VStr (di_device info))
          (setitem (disk_key name ''_percent'') (VFloat (di_percent info))
             (setitem (disk_key name ''_free_gb'') (VFloat (di_free_gb info))
                (setitem (disk_key name ''_used_gb'') (VFloat (di_used_gb info))
                   (setitem (disk_key name ''_total_gb'') (VFloat (di_total_gb info)) metrics)))))"

text \<open>\<^verbatim>\<open>any(x in disk_info['fstype'] for x in ['overlay', 'squashfs'])\<close>: a substring test.\<close>

definition is_layered :: "string \<Rightarrow> bool" where
  "is_layered t = list_ex (\<lambda>x. sublist x t) [''overlay'', ''squashfs'']"

fun add_disks ::
  "(string \<times> disk_info) list \<Rightarrow> (string \<times> pyval) list \<Rightarrow> int \<Rightarrow> int \<Rightarrow> (string \<times> pyval) list \<times> int \<times> int"
where
  "add_disks [] metrics total_disk_used total_disk_size = (metrics, total_disk_used, total_disk_size)"
| "add_disks ((name, info) # items) metrics total_disk_used total_disk_size =
     (if \<not> is_layered (di_fstype info)
      then add_disks items (add_disk_keys name info metrics)
             (total_disk_used + di_used_bytes info) (total_disk_size + di_total_bytes info)
      else add_disks items (add_disk_keys name info metrics) total_disk_used total_disk_size)"

text \<open>
  The three aggregate keys, set only for a positive total size, and \<^verbatim>\<open>disk_count\<close>.
  The percentage is a division of two ints and a multiplication of floats, each rounded
  to a double, before \<^verbatim>\<open>round\<close>.
\<close>

definition add_totals :: "int \<Rightarrow> int \<Rightarrow> (string \<times> pyval) list \<Rightarrow> (string \<times> pyval) list" where
  "add_totals total_disk_used total_disk_size metrics =
     (if total_disk_size > 0
      then setitem ''disk_percent_all''
             (VFloat (round2 (nearest_double (nearest_double (of_int total_disk_used / of_int total_disk_size) * 100))))
             (setitem ''disk_used_all_gb'' (VFloat (round2 (per_gib total_disk_used)))
                (setitem ''disk_total_all_gb'' (VFloat (round2 (per_gib total_disk_size))) metrics))
      else metrics)"

definition finish_metrics :: "(string \<times> disk_info) list \<Rightarrow> (string \<times> pyval) list \<Rightarrow> (string \<times> pyval) list" where
  "finish_metrics disk_metrics metrics =
     (case add_disks disk_metrics metrics 0 0 of
        (metrics', total_disk_used, total_disk_size) \<Rightarrow>
          setitem ''disk_count'' (VInt (int (length disk_metrics)))
            (add_totals total_disk_used total_disk_size metrics'))"

text \<open>The message of reading an attribute of \<^verbatim>\<open>None\<close>.\<close>

definition none_has_no :: "string \<Rightarrow> py_exc" where
  "none_has_no attr =
     AttributeError ([CHR 0x27] @ ''NoneType'' @ [CHR 0x27] @ '' object has no attribute '' @
                     [CHR 0x27] @ attr @ [CHR 0x27])"

text \<open>
  The queries in the order the source makes them. The host name is asked for while the
  literal is built, before \<^verbatim>\<open>disk_io.read_bytes\<close> is read: counters that are
  \<^verbatim>\<open>None\<close> raise there.
\<close>

definition collect_metrics :: "host \<Rightarrow> (string \<times> pyval) list act" where
  "collect_metrics h =
     seq (query Q_now (Inr (os_now h))) (\<lambda>timestamp.
     seq (query (Q_cpu_percent False) (os_cpu_percent h)) (\<lambda>cpu_percent.
     seq (query (Q_cpu_percent True) (os_cpu_percent_percpu h)) (\<lambda>cpu_percent_per_core.
     seq (query Q_cpu_count (os_cpu_count h)) (\<lambda>cpu_count.
     seq (query Q_cpu_freq (os_cpu_freq h)) (\<lambda>cpu_freq.
     seq (query Q_virtual_memory (os_virtual_memory h)) (\<lambda>memory.
     seq (query Q_swap_memory (os_swap_memory h)) (\<lambda>swap.
     seq (get_disk_metrics h) (\<lambda>disk_metrics.
     seq (query Q_disk_io_counters (os_disk_io_counters h)) (\<lambda>disk_io.
     seq (query Q_net_io_counters (os_net_io_counters h)) (\<lambda>net_io.
     seq (query Q_getloadavg (os_getloadavg h)) (\<lambda>load_avg.
     seq (query Q_pids (os_pids h)) (\<lambda>pids.
     seq (query Q_gethostname (os_gethostname h)) (\<lambda>hostname.
       case disk_io of
         None \<Rightarrow> raise (none_has_no ''read_bytes'')
       | Some dio \<Rightarrow>
           (case net_io of
              None \<Rightarrow> raise (none_has_no ''bytes_sent'')
            | Some nio \<Rightarrow>
                ret (finish_metrics disk_metrics
                       (base_metrics timestamp hostname cpu_percent cpu_count cpu_freq load_avg
                          memory swap dio nio (int (length pids))))))))))))))))))"

section \<open>The presenters\<close>

subsection \<open>CSV header and row\<close>

definition print_csv_header :: "host \<Rightarrow> unit act" where
  "print_csv_header h =
     seq (collect_metrics h) (\<lambda>metrics s. (Inr (), print_out (join '','' (keys metrics)) s))"

text \<open>
  One field of the row, by the branches of the source in their order: \<^verbatim>\<open>None\<close>, a
  string with a comma (wrapped in double quotes, nothing inside escaped), a number,
  anything else.
\<close>

fun csv_value :: "pyval \<Rightarrow> string" where
  "csv_value VNone = []"
| "csv_value (VStr v) =
     (if CHR '','' \<in> set v then [CHR 0x22] @ v @ [CHR 0x22] else str_val (VStr v))"
| "csv_value (VInt i) = str_val (VInt i)"
| "csv_value (VFloat x) = str_val (VFloat x)"

definition row_values :: "(string \<times> pyval) list \<Rightarrow> string list" where
  "row_values metrics = map (\<lambda>(key, v). csv_value v) metrics"

definition print_csv_row :: "host \<Rightarrow> unit act" where
  "print_csv_row h =
     seq (collect_metrics h) (\<lambda>metrics s. (Inr (), print_out (join '','' (row_values metrics)) s))"

subsection \<open>JSON\<close>

text \<open>
  The characters of a \<^verbatim>\<open>str\<close>, as code points, read back from its bytes. A byte that is
  no part of a well-formed sequence is the lone surrogate that the \<^verbatim>\<open>surrogateescape\<close>
  decoding of file names and host names holds for it.
\<close>

definition continuation :: "int \<Rightarrow> bool" where
  "continuation b = (128 \<le> b \<and> b < 192)"

definition cp2 :: "int \<Rightarrow> int \<Rightarrow> int" where
  "cp2 a b = (a - 192) * 64 + (b - 128)"

definition cp3 :: "int \<Rightarrow> int \<Rightarrow> int \<Rightarrow> int" where
  "cp3 a b c = (a - 224) * 4096 + (b - 128) * 64 + (c - 128)"

definition cp4 :: "int \<Rightarrow> int \<Rightarrow> int \<Rightarrow> int \<Rightarrow> int" where
  "cp4 a b c d = (a - 240) * 262144 + (b - 128) * 4096 + (c - 128) * 64 + (d - 128)"

definition two_bytes :: "int \<Rightarrow> int \<Rightarrow> bool" where
  "two_bytes a b = (194 \<le> a \<and> a < 224 \<and> continuation b)"

definition three_bytes :: "int \<Rightarrow> int \<Rightarrow> int \<Rightarrow> bool" where
  "three_bytes a b c =
     (224 \<le> a \<and> a < 240 \<and> continuation b \<and> continuation c \<and> 2048 \<le> cp3 a b c \<and>
      \<not> (55296 \<le> cp3 a b c \<and> cp3 a b c \<le> 57343))"

definition four_bytes :: "int \<Rightarrow> int \<Rightarrow> int \<Rightarrow> int \<Rightarrow> bool" where
  "four_bytes a b c d =
     (240 \<le> a \<and> a < 245 \<and> continuation b \<and> continuation c \<and> continuation d \<and>
      65536 \<le> cp4 a b c d \<and> cp4 a b c d \<le> 1114111)"

fun utf8_decode :: "int list \<Rightarrow> int list" where
  "utf8_decode (a # b # c # d # bs) =
     (if a < 128 then a # utf8_decode (b # c # d # bs)
      else if two_bytes a b then cp2 a b # utf8_decode (c # d # bs)
      else if three_bytes a b c then cp3 a b c # utf8_decode (d # bs)
      else if four_bytes a b c d then cp4 a b c d # utf8_decode bs
      else (56320 + a) # utf8_decode (b # c # d # bs))"
| "utf8_decode [a, b, c] =
     (if a < 128 then a # utf8_decode [b, c]
      else if two_bytes a b then cp2 a b # utf8_decode [c]
      else if three_bytes a b c then [cp3 a b c]
      else (56320 + a) # utf8_decode [b, c])"
| "utf8_decode [a, b] =
     (if a < 128 then a # utf8_decode [b]
      else if two_bytes a b then [cp2 a b]
      else (56320 + a) # utf8_decode [b])"
| "utf8_decode [a] = [if a < 128 then a else 56320 + a]"
| "utf8_decode [] = []"

text \<open>
  \<^verbatim>\<open>json.dumps(metrics, indent=2)\<close> with the default \<^verbatim>\<open>ensure_ascii\<close>: every character
  outside the printable ASCII range is written as a \<^verbatim>\<open>\u\<close> escape of its code point, a
  character beyond the basic plane as the escapes of its two surrogates.
\<close>

definition hex_digit :: "int \<Rightarrow> char" where
  "hex_digit n = ''0123456789abcdef'' ! nat (n mod 16)"

definition hex4 :: "int \<Rightarrow> string" where
  "hex4 n = [hex_digit (n div 4096), hex_digit (n div 256), hex_digit (n div 16), hex_digit n]"

definition json_escape :: "int \<Rightarrow> string" where
  "json_escape c =
     (if c = 34 then [CHR 0x5C, CHR 0x22]
      else if c = 92 then [CHR 0x5C, CHR 0x5C]
      else if c = 10 then [CHR 0x5C, CHR ''n'']
      else if c = 13 then [CHR 0x5C, CHR ''r'']
      else if c = 9 then [CHR 0x5C, CHR ''t'']
      else if c = 8 then [CHR 0x5C, CHR ''b'']
      else if c = 12 then [CHR 0x5C, CHR ''f'']
      else if 32 \<le> c \<and> c \<le> 126 then [char_of c]
      else if c < 65536 then [CHR 0x5C, CHR ''u''] @ hex4 c
      else [CHR 0x5C, CHR ''u''] @ hex4 (55296 + (c - 65536) div 1024) @
           [CHR 0x5C, CHR ''u''] @ hex4 (56320 + (c - 65536) mod 1024))"

definition json_string :: "string \<Rightarrow> string" where
  "json_string s = [CHR 0x22] @ concat (map json_escape (utf8_decode (map of_char s))) @ [CHR 0x22]"

fun json_value :: "pyval \<Rightarrow> string" where
  "json_value VNone = ''null''"
| "json_value (VInt i) = str_int i"
| "json_value (VFloat x) = str_float x"
| "json_value (VStr s) = json_string s"

definition json_dumps :: "(string \<times> pyval) list \<Rightarrow> string" where
  "json_dumps metrics =
     (if metrics = [] then ''{}''
      else ''{'' @ [CHR 0x0A] @ ''  '' @
           join ('','' @ [CHR 0x0A] @ ''  '')
             (map (\<lambda>(key, v). json_string key @ '': '' @ json_value v) metrics) @
           [CHR 0x0A] @ ''}'')"

definition print_json :: "host \<Rightarrow> unit act" where
  "print_json h = seq (collect_metrics h) (\<lambda>metrics s. (Inr (), print_out (json_dumps metrics) s))"

subsection \<open>The report for people\<close>

definition bindE :: "py_exc + 'a \<Rightarrow> ('a \<Rightarrow> py_exc + 'b) \<Rightarrow> py_exc + 'b" where
  "bindE r f = (case r of Inl e \<Rightarrow> Inl e | Inr x \<Rightarrow> f x)"

definition quoted :: "string \<Rightarrow> string" where
  "quoted s = [CHR 0x27] @ s @ [CHR 0x27]"

text \<open>An f-string field \<^verbatim>\<open>{v:.Nf}\<close>.\<close>

fun format_f :: "nat \<Rightarrow> pyval \<Rightarrow> py_exc + string" where
  "format_f d (VFloat x) = Inr (fmt_fixed d x)"
| "format_f d (VInt i) = Inr (fmt_fixed d (of_int i))"
| "format_f d VNone = Inl (TypeError ''unsupported format string passed to NoneType.__format__'')"
| "format_f d (VStr s) =
     Inl (ValueError (''Unknown format code '' @ quoted ''f'' @ '' for object of type '' @ quoted ''str''))"

text \<open>The comparison \<^verbatim>\<open>v > 0\<close>.\<close>

fun gt_zero :: "pyval \<Rightarrow> py_exc + bool" where
  "gt_zero (VFloat x) = Inr (x > 0)"
| "gt_zero (VInt i) = Inr (i > 0)"
| "gt_zero VNone =
     Inl (TypeError (quoted ''>'' @ '' not supported between instances of '' @ quoted ''NoneType'' @
                     '' and '' @ quoted ''int''))"
| "gt_zero (VStr s) =
     Inl (TypeError (quoted ''>'' @ '' not supported between instances of '' @ quoted ''str'' @
                     '' and '' @ quoted ''int''))"

definition item_str :: "(string \<times> pyval) list \<Rightarrow> string \<Rightarrow> py_exc + string" where
  "item_str metrics k = bindE (getitem metrics k) (\<lambda>v. Inr (str_val v))"

definition item_f :: "nat \<Rightarrow> (string \<times> pyval) list \<Rightarrow> string \<Rightarrow> py_exc + string" where
  "item_f d metrics k = bindE (getitem metrics k) (format_f d)"

definition rule60 :: string where
  "rule60 = replicate 60 CHR ''=''"

definition title :: "char list \<Rightarrow> string \<Rightarrow> string" where
  "title pictograph s = [CHR 0x0A] @ pictograph @ '' '' @ s"

text \<open>The four lines of one disk, read from the second enumeration's record.\<close>

definition disk_lines :: "disk_info \<Rightarrow> string list" where
  "disk_lines info =
     [''  '' @ di_mountpoint info @ '':'',
      ''    Used: '' @ fmt_fixed 1 (di_used_gb info) @ '' GB / '' @ fmt_fixed 1 (di_total_gb info) @
        '' GB ('' @ str_float (di_percent info) @ ''%)'',
      ''    Free: '' @ fmt_fixed 1 (di_free_gb info) @ '' GB'',
      ''    Type: '' @ di_device info @ '' ('' @ di_fstype info @ '')'']"

text \<open>
  The statements of the report in order. Each is the lines it prints, or the exception that
  evaluating its fields raises; a field is evaluated and formatted before the next one.
\<close>

definition human_report ::
  "(string \<times> pyval) list \<Rightarrow> (string \<times> disk_info) list \<Rightarrow> (py_exc + string list) list"
where
  "human_report metrics disk_metrics =
     [Inr [[CHR 0x0A] @ rule60],
      bindE (item_str metrics ''timestamp'') (\<lambda>t. Inr [''System Metrics Report - '' @ t]),
      Inr [rule60],
      Inr [title [CHR 0xF0, CHR 0x9F, CHR 0x93, CHR 0x8A] ''CPU Usage:''],
      bindE (item_str metrics ''cpu_percent'') (\<lambda>c. Inr [''  Overall: '' @ c @ ''%'']),
      bindE (item_f 2 metrics ''load_1min'') (\<lambda>a.
        bindE (item_f 2 metrics ''load_5min'') (\<lambda>b.
          bindE (item_f 2 metrics ''load_15min'') (\<lambda>c.
            Inr [''  Load Average: '' @ a @ '', '' @ b @ '', '' @ c]))),
      Inr [title [CHR 0xF0, CHR 0x9F, CHR 0xA7, CHR 0xA0] ''Memory:''],
      bindE (item_f 1 metrics ''memory_used_gb'') (\<lambda>u.
        bindE (item_f 1 metrics ''memory_total_gb'') (\<lambda>t.
          bindE (item_str metrics ''memory_percent'') (\<lambda>p.
            Inr [''  Used: '' @ u @ '' GB / '' @ t @ '' GB ('' @ p @ ''%)'']))),
      bindE (item_f 1 metrics ''memory_available_gb'') (\<lambda>a. Inr [''  Available: '' @ a @ '' GB'']),
      bindE (getitem metrics ''swap_total_gb'') (\<lambda>v.
        bindE (gt_zero v) (\<lambda>positive.
          if positive
          then bindE (item_f 1 metrics ''swap_used_gb'') (\<lambda>u.
                 bindE (item_f 1 metrics ''swap_total_gb'') (\<lambda>t.
                   bindE (item_str metrics ''swap_percent'') (\<lambda>p.
                     Inr [''  Swap: '' @ u @ '' GB / '' @ t @ '' GB ('' @ p @ ''%)''])))
          else Inr [])),
      Inr [title [CHR 0xF0, CHR 0x9F, CHR 0x92, CHR 0xBE] ''Disk Usage:'']] @
     map (\<lambda>(name, info). Inr (disk_lines info)) disk_metrics @
     [Inr [title [CHR 0xF0, CHR 0x9F, CHR 0x93, CHR 0x88] ''Disk IO:''],
      bindE (item_f 1 metrics ''disk_io_read_mb'') (\<lambda>r. Inr [''  Read: '' @ r @ '' MB'']),
      bindE (item_f 1 metrics ''disk_io_write_mb'') (\<lambda>w. Inr [''  Write: '' @ w @ '' MB'']),
      Inr [title [CHR 0xF0, CHR 0x9F, CHR 0x8C, CHR 0x90] ''Network:''],
      bindE (item_f 1 metrics ''net_mb_sent'') (\<lambda>x. Inr [''  Sent: '' @ x @ '' MB'']),
      bindE (item_f 1 metrics ''net_mb_recv'') (\<lambda>x. Inr [''  Received: '' @ x @ '' MB'']),
      Inr [title [CHR 0xF0, CHR 0x9F, CHR 0x94, CHR 0xA2] ''System:''],
      bindE (item_str metrics ''process_count'') (\<lambda>n. Inr [''  Processes: '' @ n]),
      bindE (item_str metrics ''disk_count'') (\<lambda>n. Inr [''  Disks: '' @ n]),
      Inr [[CHR 0x0A] @ rule60]]"

fun print_blocks :: "(py_exc + string list) list \<Rightarrow> unit act" where
  "print_blocks [] s = (Inr (), s)"
| "print_blocks (Inl e # rest) s = (Inl e, s)"
| "print_blocks (Inr lines # rest) s = print_blocks rest (s\<lparr>stdout := stdout s @ lines\<rparr>)"

text \<open>
  The report collects, then enumerates the disks a second time, and only then prints.
\<close>

definition print_human_readable :: "host \<Rightarrow> unit act" where
  "print_human_readable h =
     seq (collect_metrics h) (\<lambda>metrics.
     seq (get_disk_metrics h) (\<lambda>disk_metrics.
       print_blocks (human_report metrics disk_metrics)))"

section \<open>The command line\<close>

text \<open>
  The command line after tokenising: the value given to \<^verbatim>\<open>--format\<close>, if any, and whether
  \<^verbatim>\<open>--once\<close> is present. \<^verbatim>\<open>parse_args\<close> is the part of \<^verbatim>\<open>argparse\<close> the program
  configures: the default and the \<^verbatim>\<open>choices\<close> of \<^verbatim>\<open>--format\<close>. A value outside the
  choices ends the process with status 2 and a message on the error stream, before the
  \<^verbatim>\<open>try\<close> block is entered.
\<close>

record cmdline =
  format_arg :: "string option"
  once_flag :: bool

record namespace =
  format :: string
  once :: bool

definition format_choices :: "string list" where
  "format_choices = [''csv'', ''json'', ''header'', ''human'']"

definition invalid_choice :: "string \<Rightarrow> string" where
  "invalid_choice v =
     ''run.py: error: argument --format: invalid choice: '' @ quoted v @ '' (choose from '' @
     join '', '' (map quoted format_choices) @ '')''"

definition parse_args :: "cmdline \<Rightarrow> string + namespace" where
  "parse_args cl =
     (case format_arg cl of
        None \<Rightarrow> Inr \<lparr> format = ''human'', once = once_flag cl \<rparr>
      | Some v \<Rightarrow>
          if v \<in> set format_choices then Inr \<lparr> format = v, once = once_flag cl \<rparr>
          else Inl (invalid_choice v))"

text \<open>The \<^verbatim>\<open>if\<close>/\<^verbatim>\<open>elif\<close>/\<^verbatim>\<open>else\<close> chain on \<^verbatim>\<open>args.format\<close>.\<close>

definition dispatch :: "host \<Rightarrow> string \<Rightarrow> unit act" where
  "dispatch h fmt =
     (if fmt = ''header'' then print_csv_header h
      else if fmt = ''json'' then print_json h
      else if fmt = ''human'' then print_human_readable h
      else print_csv_row h)"

text \<open>
  The process: its exit status and its effects. \<^verbatim>\<open>sys.exit(0)\<close> raises
  \<^verbatim>\<open>SystemExit\<close>, which \<^verbatim>\<open>except Exception\<close> does not catch; with \<^verbatim>\<open>--once\<close> the
  script runs off its end, which is status 0 as well.
\<close>

definition main :: "host \<Rightarrow> cmdline \<Rightarrow> io \<Rightarrow> int \<times> io" where
  "main h cl s =
     (case parse_args cl of
        Inl msg \<Rightarrow> (2, print_err msg s)
      | Inr args \<Rightarrow>
          (case dispatch h (format args) s of
             (Inr u, s') \<Rightarrow> (if \<not> once args then (0, s') else (0, s'))
           | (Inl e, s') \<Rightarrow> (1, print_err (''Error collecting metrics: '' @ str_exc e) s')))"

section \<open>Reading a CSV line\<close>

text \<open>
  The number of columns a CSV reader finds in a line: commas separate fields, except
  between double quotes.
\<close>

fun separators :: "bool \<Rightarrow> string \<Rightarrow> nat" where
  "separators quoting [] = 0"
| "separators quoting (c # cs) =
     (if c = CHR 0x22 then separators (\<not> quoting) cs
      else if c = CHR '','' \<and> \<not> quoting then Suc (separators quoting cs)
      else separators quoting cs)"

definition csv_columns :: "string \<Rightarrow> nat" where
  "csv_columns line = Suc (separators False line)"

section \<open>Notions for stating the properties\<close>

text \<open>
  What one partition contributes to the dictionary of \<^verbatim>\<open>get_disk_metrics\<close> and to the
  error stream, the dictionary as the assignments of all contributions in enumeration
  order, and the queries the enumeration makes.
\<close>

definition setitems :: "('k \<times> 'v) list \<Rightarrow> ('k \<times> 'v) list \<Rightarrow> ('k \<times> 'v) list" where
  "setitems items d = fold (\<lambda>(k, v). setitem k v) items d"

definition disk_entry :: "host \<Rightarrow> sdiskpart \<Rightarrow> (string \<times> disk_info) list" where
  "disk_entry h p =
     (if fstype p \<in> set special_fstypes then []
      else (case os_disk_usage h (mountpoint p) of
              Inr usage \<Rightarrow> [(mount_name (mountpoint p), make_disk_info p usage)]
            | Inl e \<Rightarrow> []))"

definition disk_dict :: "host \<Rightarrow> sdiskpart list \<Rightarrow> (string \<times> disk_info) list" where
  "disk_dict h ps = setitems (concat (map (disk_entry h) ps)) []"

definition disk_log :: "host \<Rightarrow> sdiskpart \<Rightarrow> string list" where
  "disk_log h p =
     (if fstype p \<in> set special_fstypes then []
      else (case os_disk_usage h (mountpoint p) of
              Inr usage \<Rightarrow> []
            | Inl (PermissionError msg) \<Rightarrow> []
            | Inl (FileNotFoundError msg) \<Rightarrow> []
            | Inl e \<Rightarrow> [''Error reading '' @ mountpoint p @ '': '' @ str_exc e]))"

definition usage_queries :: "sdiskpart list \<Rightarrow> os_call list" where
  "usage_queries ps = map (\<lambda>p. Q_disk_usage (mountpoint p)) (filter (\<lambda>p. fstype p \<notin> set special_fstypes) ps)"

definition disk_queries :: "host \<Rightarrow> os_call list" where
  "disk_queries h =
     Q_disk_partitions #
     (case os_disk_partitions h of Inl e \<Rightarrow> [] | Inr ps \<Rightarrow> usage_queries ps)"

text \<open>An action leaves one component of the effects as it found it.\<close>

definition preserves :: "(io \<Rightarrow> 'b) \<Rightarrow> 'a act \<Rightarrow> bool" where
  "preserves g m = (\<forall>s. g (snd (m s)) = g s)"

text \<open>
  Simulated hosts. \<open>root_host\<close> has one \<^verbatim>\<open>ext4\<close> partition of 100 GiB mounted at
  \<^verbatim>\<open>/\<close>, 40 GiB of it used, 16 GiB of memory and no swap.
\<close>

definition io0 :: io where
  "io0 = \<lparr> calls = [], stdout = [], stderr = [] \<rparr>"

definition gib :: int where
  "gib = 1073741824"

definition demo_usage :: "int \<Rightarrow> int \<Rightarrow> rat \<Rightarrow> sdiskusage" where
  "demo_usage t u p = \<lparr> du_total = t, du_used = u, du_free = t - u, du_percent = p \<rparr>"

definition demo_host :: "sdiskpart list \<Rightarrow> (string \<Rightarrow> py_exc + sdiskusage) \<Rightarrow> host" where
  "demo_host ps du =
     \<lparr> os_now = ''2024-05-17T09:30:00.000250'',
       os_gethostname = Inr ''box'',
       os_cpu_percent = Inr (25 / 2),
       os_cpu_percent_percpu = Inr [10, 15],
       os_cpu_count = Inr (Some 2),
       os_cpu_freq = Inr None,
       os_virtual_memory =
         Inr \<lparr> vm_total = 16 * gib, vm_available = 8 * gib, vm_used = 8 * gib, vm_percent = 50 \<rparr>,
       os_swap_memory = Inr \<lparr> sw_total = 0, sw_used = 0, sw_percent = 0 \<rparr>,
       os_disk_partitions = Inr ps,
       os_disk_usage = du,
       os_disk_io_counters = Inr (Some \<lparr> read_bytes = 1048576, write_bytes = 2621440 \<rparr>),
       os_net_io_counters = Inr (Some \<lparr> bytes_sent = 0, bytes_recv = 131072 \<rparr>),
       os_getloadavg = Inr (1 / 2, 3 / 4, 1),
       os_pids = Inr [1, 2, 3] \<rparr>"

definition root_host :: host where
  "root_host =
     demo_host [\<lparr> device = ''/dev/sda1'', mountpoint = ''/'', fstype = ''ext4'' \<rparr>]
       (\<lambda>mp. if mp = ''/'' then Inr (demo_usage (100 * gib) (40 * gib) 40)
             else Inl (FileNotFoundError mp))"

text \<open>The fixed part of the snapshot of every host made by \<open>demo_host\<close>.\<close>

definition demo_base :: "(string \<times> pyval) list" where
  "demo_base =
     base_metrics ''2024-05-17T09:30:00.000250'' ''box'' (25 / 2) (Some 2) None (1 / 2, 3 / 4, 1)
       \<lparr> vm_total = 16 * gib, vm_available = 8 * gib, vm_used = 8 * gib, vm_percent = 50 \<rparr>
       \<lparr> sw_total = 0, sw_used = 0, sw_percent = 0 \<rparr>
       \<lparr> read_bytes = 1048576, write_bytes = 2621440 \<rparr>
       \<lparr> bytes_sent = 0, bytes_recv = 131072 \<rparr> 3"

text \<open>
  The result of the collection as a function of the host alone: the readings in the order
  of the queries, the first failed one deciding.
\<close>

definition collect_result :: "host \<Rightarrow> py_exc + (string \<times> pyval) list" where
  "collect_result h =
     bindE (os_cpu_percent h) (\<lambda>cpu_percent.
     bindE (os_cpu_percent_percpu h) (\<lambda>cpu_percent_per_core.
     bindE (os_cpu_count h) (\<lambda>cpu_count.
     bindE (os_cpu_freq h) (\<lambda>cpu_freq.
     bindE (os_virtual_memory h) (\<lambda>memory.
     bindE (os_swap_memory h) (\<lambda>swap.
     bindE (os_disk_partitions h) (\<lambda>partitions.
     bindE (os_disk_io_counters h) (\<lambda>disk_io.
     bindE (os_net_io_counters h) (\<lambda>net_io.
     bindE (os_getloadavg h) (\<lambda>load_avg.
     bindE (os_pids h) (\<lambda>pids.
     bindE (os_gethostname h) (\<lambda>hostname.
       case disk_io of
         None \<Rightarrow> Inl (none_has_no ''read_bytes'')
       | Some dio \<Rightarrow>
           (case net_io of
              None \<Rightarrow> Inl (none_has_no ''bytes_sent'')
            | Some nio \<Rightarrow>
                Inr (finish_metrics (disk_dict h partitions)
                       (base_metrics (os_now h) hostname cpu_percent cpu_count cpu_freq load_avg
                          memory swap dio nio (int (length pids)))))))))))))))))"

text \<open>The snapshot a host yields from the initial state (empty if the collection fails).\<close>

definition snapshot_of :: "host \<Rightarrow> (string \<times> pyval) list" where
  "snapshot_of h = (case collect_metrics h io0 of (Inr m, s) \<Rightarrow> m | (Inl e, s) \<Rightarrow> [])"

definition disk_suffixes :: "string list" where
  "disk_suffixes = [''_total_gb'', ''_used_gb'', ''_free_gb'', ''_percent'', ''_device'', ''_fstype'']"

definition disk_items :: "string \<Rightarrow> disk_info \<Rightarrow> (string \<times> pyval) list" where
  "disk_items name info =
     [(disk_key name ''_total_gb'', VFloat (di_total_gb info)),
      (disk_key name ''_used_gb'', VFloat (di_used_gb info)),
      (disk_key name ''_free_gb'', VFloat (di_free_gb info)),
      (disk_key name ''_percent'', VFloat (di_percent info)),
      (disk_key name ''_device'', VStr (di_device info)),
      (disk_key name ''_fstype'', VStr (di_fstype info))]"

definition all_disk_items :: "(string \<times> disk_info) list \<Rightarrow> (string \<times> pyval) list" where
  "all_disk_items dm = concat (map (\<lambda>(name, info). disk_items name info) dm)"

definition counted :: "(string \<times> disk_info) list \<Rightarrow> disk_info list" where
  "counted dm = filter (\<lambda>info. \<not> is_layered (di_fstype info)) (map snd dm)"

definition aggregate_items :: "int \<Rightarrow> int \<Rightarrow> (string \<times> pyval) list" where
  "aggregate_items total_used total_size =
     (if total_size > 0
      then [(''disk_total_all_gb'', VFloat (round2 (per_gib total_size))),
            (''disk_used_all_gb'', VFloat (round2 (per_gib total_used))),
            (''disk_percent_all'',
             VFloat (round2 (nearest_double (nearest_double (of_int total_used / of_int total_size) * 100))))]
      else [])"

definition fixed_keys :: "string list" where
  "fixed_keys =
     [''timestamp'', ''hostname'', ''cpu_percent'', ''cpu_count'', ''cpu_freq_current'',
      ''load_1min'', ''load_5min'', ''load_15min'', ''memory_total_gb'', ''memory_available_gb'',
      ''memory_used_gb'', ''memory_percent'', ''swap_total_gb'', ''swap_used_gb'', ''swap_percent'',
      ''disk_io_read_mb'', ''disk_io_write_mb'', ''net_mb_sent'', ''net_mb_recv'', ''process_count'']"

definition reserved_keys :: "string list" where
  "reserved_keys =
     fixed_keys @ [''disk_total_all_gb'', ''disk_used_all_gb'', ''disk_percent_all'', ''disk_count'']"

definition included :: "host \<Rightarrow> sdiskpart \<Rightarrow> bool" where
  "included h p =
     (fstype p \<notin> set special_fstypes \<and>
      (case os_disk_usage h (mountpoint p) of Inr usage \<Rightarrow> True | Inl e \<Rightarrow> False))"

definition disk_field :: "string \<Rightarrow> disk_info \<Rightarrow> pyval option" where
  "disk_field sfx info = map_of (disk_items [] info) (disk_key [] sfx)"

definition root_parts :: "sdiskpart list" where
  "root_parts = [\<lparr> device = ''/dev/sda1'', mountpoint = ''/'', fstype = ''ext4'' \<rparr>]"


text \<open>What follows the fixed keys in a snapshot, as a function of the disk dictionary.\<close>

definition disk_tail :: "(string \<times> disk_info) list \<Rightarrow> (string \<times> pyval) list" where
  "disk_tail dm =
     all_disk_items dm @
     aggregate_items (sum_list (map di_used_bytes (counted dm)))
       (sum_list (map di_total_bytes (counted dm))) @
     [(''disk_count'', VInt (int (length dm)))]"

text \<open>
  \<open>pct_host\<close> has one \<^verbatim>\<open>ext4\<close> partition of 160 GiB with 23 GiB used. \<open>fuse_host\<close> has an
  \<^verbatim>\<open>ext4\<close> partition of 100 GiB and a \<^verbatim>\<open>fuse.overlayfs\<close> partition of 50 GiB.
\<close>

definition pct_parts :: "sdiskpart list" where
  "pct_parts = [\<lparr> device = ''/dev/sda1'', mountpoint = ''/'', fstype = ''ext4'' \<rparr>]"

definition pct_host :: host where
  "pct_host = demo_host pct_parts (\<lambda>mp. Inr (demo_usage 171798691840 24696061952 (72 / 5)))"

definition fuse_parts :: "sdiskpart list" where
  "fuse_parts =
     [\<lparr> device = ''/dev/sda1'', mountpoint = ''/'', fstype = ''ext4'' \<rparr>,
      \<lparr> device = ''fuse-overlayfs'', mountpoint = ''/var/lib/containers'',
        fstype = ''fuse.overlayfs'' \<rparr>]"

definition fuse_host :: host where
  "fuse_host =
     demo_host fuse_parts
       (\<lambda>mp. if mp = ''/'' then Inr (demo_usage (100 * gib) (40 * gib) 40)
             else Inr (demo_usage (50 * gib) (10 * gib) 20))"


section \<open>Dictionaries and the disk loop\<close>

lemma map_of_setitem: "map_of (setitem k v d) = (map_of d)(k \<mapsto> v)"
  by (induction d) auto

lemma keys_setitem_list: "keys (setitem k v d) = (if k \<in> set (keys d) then keys d else keys d @ [k])"
proof (induction d)
  case Nil
  show ?case by (simp add: keys_def)
next
  case (Cons a d)
  obtain k' v' where a: "a = (k', v')" by (cases a)
  from Cons show ?case unfolding a keys_def by auto
qed

lemma keys_setitem: "set (keys (setitem k v d)) = insert k (set (keys d))"
  by (auto simp: keys_setitem_list)

lemma setitem_fresh: "k \<notin> set (keys d) \<Longrightarrow> setitem k v d = d @ [(k, v)]"
  by (induction d) (auto simp: keys_def)

lemma distinct_setitem: "distinct (keys d) \<Longrightarrow> distinct (keys (setitem k v d))"
  by (simp add: keys_setitem_list)

lemma setitems_Nil [simp]: "setitems [] d = d"
  by (simp add: setitems_def)

lemma setitems_Cons [simp]: "setitems ((k, v) # items) d = setitems items (setitem k v d)"
  by (simp add: setitems_def)

lemma setitems_append: "setitems (xs @ ys) d = setitems ys (setitems xs d)"
  by (simp add: setitems_def)

lemma disk_loop_fst: "fst (disk_loop h ps dm s) = setitems (concat (map (disk_entry h) ps)) dm"
proof (induction ps arbitrary: dm s)
  case Nil
  show ?case by simp
next
  case (Cons p ps)
  show ?case
    by (simp add: Cons.IH disk_entry_def query_def setitems_append
             split: sum.splits py_exc.splits)
qed

lemma disk_loop_stdout: "stdout (snd (disk_loop h ps dm s)) = stdout s"
proof (induction ps arbitrary: dm s)
  case Nil
  show ?case by simp
next
  case (Cons p ps)
  show ?case
    by (simp add: Cons.IH query_def print_err_def split: sum.splits py_exc.splits)
qed

lemma disk_loop_calls: "calls (snd (disk_loop h ps dm s)) = calls s @ usage_queries ps"
proof (induction ps arbitrary: dm s)
  case Nil
  show ?case by (simp add: usage_queries_def)
next
  case (Cons p ps)
  have step: "usage_queries (p # ps) =
      (if fstype p \<in> set special_fstypes then [] else [Q_disk_usage (mountpoint p)]) @ usage_queries ps"
    by (simp add: usage_queries_def)
  show ?case
    by (simp add: Cons.IH step query_def print_err_def split: sum.splits py_exc.splits)
qed

lemma disk_loop_stderr: "stderr (snd (disk_loop h ps dm s)) = stderr s @ concat (map (disk_log h) ps)"
proof (induction ps arbitrary: dm s)
  case Nil
  show ?case by simp
next
  case (Cons p ps)
  show ?case
    by (simp add: Cons.IH disk_log_def query_def print_err_def split: sum.splits py_exc.splits)
qed

section \<open>The collector: results and effects\<close>

lemma seq_query_Inr:
  "seq (query q r) f s = (Inr y, s') \<longleftrightarrow>
   (\<exists>x. r = Inr x \<and> f x (s\<lparr>calls := calls s @ [q]\<rparr>) = (Inr y, s'))"
  by (cases r) (simp_all add: seq_def query_def)

lemma get_disk_metrics_eq:
  "get_disk_metrics h s =
     (case os_disk_partitions h of
        Inl e \<Rightarrow> (Inl e, s\<lparr>calls := calls s @ [Q_disk_partitions]\<rparr>)
      | Inr ps \<Rightarrow> (Inr (disk_dict h ps),
                   snd (disk_loop h ps [] (s\<lparr>calls := calls s @ [Q_disk_partitions]\<rparr>))))"
proof (cases "os_disk_partitions h")
  case (Inl e)
  then show ?thesis by (simp add: get_disk_metrics_def seq_def query_def)
next
  case (Inr ps)
  obtain dm s1 where dl: "disk_loop h ps [] (s\<lparr>calls := calls s @ [Q_disk_partitions]\<rparr>) = (dm, s1)"
    by (cases "disk_loop h ps [] (s\<lparr>calls := calls s @ [Q_disk_partitions]\<rparr>)")
  have "fst (disk_loop h ps [] (s\<lparr>calls := calls s @ [Q_disk_partitions]\<rparr>)) = disk_dict h ps"
    by (simp add: disk_loop_fst disk_dict_def)
  with dl have "dm = disk_dict h ps" by simp
  with Inr dl show ?thesis
    by (simp add: get_disk_metrics_def seq_def query_def)
qed

lemma seq_get_disk_Inr:
  "seq (get_disk_metrics h) f s = (Inr y, s') \<longleftrightarrow>
   (\<exists>ps. os_disk_partitions h = Inr ps \<and>
         f (disk_dict h ps)
           (snd (disk_loop h ps [] (s\<lparr>calls := calls s @ [Q_disk_partitions]\<rparr>))) = (Inr y, s'))"
  by (cases "os_disk_partitions h") (simp_all add: seq_def get_disk_metrics_eq)

lemma collect_metrics_Inr:
  assumes "collect_metrics h s = (Inr m, s')"
  shows "\<exists>hostname cpu cc cf la memory swap ps dio nio ids.
           os_gethostname h = Inr hostname \<and> os_cpu_percent h = Inr cpu \<and>
           os_cpu_count h = Inr cc \<and> os_cpu_freq h = Inr cf \<and> os_getloadavg h = Inr la \<and>
           os_virtual_memory h = Inr memory \<and> os_swap_memory h = Inr swap \<and>
           os_disk_partitions h = Inr ps \<and> os_disk_io_counters h = Inr (Some dio) \<and>
           os_net_io_counters h = Inr (Some nio) \<and> os_pids h = Inr ids \<and>
           m = finish_metrics (disk_dict h ps)
                 (base_metrics (os_now h) hostname cpu cc cf la memory swap dio nio
                    (int (length ids)))"
  using assms unfolding collect_metrics_def
  by (auto simp: seq_query_Inr seq_get_disk_Inr ret_def raise_def split: option.splits)

lemma fst_seq_query:
  "fst (seq (query q r) f s) = bindE r (\<lambda>x. fst (f x (s\<lparr>calls := calls s @ [q]\<rparr>)))"
  by (cases r) (simp_all add: seq_def query_def bindE_def)

lemma fst_seq_get_disk:
  "fst (seq (get_disk_metrics h) f s) =
     bindE (os_disk_partitions h)
       (\<lambda>ps. fst (f (disk_dict h ps)
                    (snd (disk_loop h ps [] (s\<lparr>calls := calls s @ [Q_disk_partitions]\<rparr>)))))"
  by (cases "os_disk_partitions h") (simp_all add: seq_def get_disk_metrics_eq bindE_def)

lemma collect_metrics_fst: "fst (collect_metrics h s) = collect_result h"
  unfolding collect_metrics_def collect_result_def
  by (auto simp: fst_seq_query fst_seq_get_disk bindE_def ret_def raise_def
       split: sum.splits option.splits)

lemma collect_snapshot:
  assumes "collect_result h = Inr m"
  shows "collect_metrics h io0 = (Inr (snapshot_of h), snd (collect_metrics h io0))"
    and "snapshot_of h = m"
proof -
  have "fst (collect_metrics h io0) = Inr m" by (simp add: collect_metrics_fst assms)
  then show "collect_metrics h io0 = (Inr (snapshot_of h), snd (collect_metrics h io0))"
    and "snapshot_of h = m"
    by (cases "collect_metrics h io0"; simp add: snapshot_of_def)+
qed

lemma collect_demo_host:
  "collect_result (demo_host ps du) = Inr (finish_metrics (disk_dict (demo_host ps du) ps) demo_base)"
  by (simp add: collect_result_def demo_host_def bindE_def demo_base_def)

lemma preserves_ret: "preserves g (ret x)"
  by (simp add: preserves_def ret_def)

lemma preserves_raise: "preserves g (raise e)"
  by (simp add: preserves_def raise_def)

lemma preserves_seq:
  assumes "preserves g m" and "\<And>x. preserves g (f x)"
  shows "preserves g (seq m f)"
proof -
  have "g (snd (seq m f s)) = g s" for s
  proof (cases "m s")
    case (Pair r s1)
    have s1: "g s1 = g s" using assms(1) Pair by (simp add: preserves_def) (metis snd_conv)
    show ?thesis
    proof (cases r)
      case (Inl e)
      with Pair s1 show ?thesis by (simp add: seq_def)
    next
      case (Inr x)
      have "g (snd (f x s1)) = g s1" using assms(2) by (simp add: preserves_def)
      with Pair Inr s1 show ?thesis by (simp add: seq_def)
    qed
  qed
  then show ?thesis by (simp add: preserves_def)
qed

lemma preserves_query_stdout: "preserves stdout (query q r)"
  by (simp add: preserves_def query_def)

lemma preserves_query_stderr: "preserves stderr (query q r)"
  by (simp add: preserves_def query_def)

lemma preserves_disk_stdout: "preserves stdout (get_disk_metrics h)"
  by (simp add: preserves_def get_disk_metrics_eq disk_loop_stdout split: sum.splits)

lemma preserves_collect_stdout: "preserves stdout (collect_metrics h)"
  unfolding collect_metrics_def
  by (intro preserves_seq preserves_query_stdout preserves_disk_stdout)
     (simp add: preserves_ret preserves_raise split: option.splits)

lemma collect_metrics_stdout: "stdout (snd (collect_metrics h s)) = stdout s"
  using preserves_collect_stdout by (simp add: preserves_def)

lemma get_disk_metrics_calls: "calls (snd (get_disk_metrics h s)) = calls s @ disk_queries h"
  by (simp add: get_disk_metrics_eq disk_queries_def disk_loop_calls split: sum.splits)

section \<open>Keys outside the \<^verbatim>\<open>disk_\<close> family\<close>

lemma not_prefixed: "\<not> prefix p k \<Longrightarrow> k \<noteq> p @ r"
  by auto

lemma not_disk_key: "\<not> prefix ''disk_'' k \<Longrightarrow> k \<noteq> disk_key n sfx"
  unfolding disk_key_def by (rule not_prefixed)

lemma map_of_add_disk_keys:
  "\<not> prefix ''disk_'' k \<Longrightarrow> map_of (add_disk_keys n i m) k = map_of m k"
  by (simp add: add_disk_keys_def map_of_setitem not_disk_key)

lemma map_of_add_disks:
  "\<not> prefix ''disk_'' k \<Longrightarrow> map_of (fst (add_disks dm m u t)) k = map_of m k"
  by (induction dm m u t rule: add_disks.induct) (simp_all add: map_of_add_disk_keys)

lemma not_aggregate_key:
  assumes "\<not> prefix ''disk_'' k"
  shows "k \<noteq> ''disk_total_all_gb''" and "k \<noteq> ''disk_used_all_gb''"
    and "k \<noteq> ''disk_percent_all''" and "k \<noteq> ''disk_count''"
  using not_prefixed [OF assms, of "''total_all_gb''"] not_prefixed [OF assms, of "''used_all_gb''"]
    not_prefixed [OF assms, of "''percent_all''"] not_prefixed [OF assms, of "''count''"]
  by simp_all

lemma map_of_add_totals:
  "\<not> prefix ''disk_'' k \<Longrightarrow> map_of (add_totals u t m) k = map_of m k"
  by (simp add: add_totals_def map_of_setitem not_aggregate_key)

lemma map_of_finish_metrics:
  assumes "\<not> prefix ''disk_'' k"
  shows "map_of (finish_metrics dm m) k = map_of m k"
proof -
  obtain m' u t where a: "add_disks dm m 0 0 = (m', u, t)"
    by (cases "add_disks dm m 0 0")
  have "map_of m' k = map_of m k"
    using map_of_add_disks [OF assms, of dm m 0 0] a by simp
  then show ?thesis
    by (simp add: finish_metrics_def a map_of_setitem map_of_add_totals [OF assms]
          not_aggregate_key [OF assms])
qed

section \<open>Evaluating the simulated hosts\<close>

lemma collect_root_host:
  "collect_metrics root_host io0 = (Inr (snapshot_of root_host), snd (collect_metrics root_host io0))"
  unfolding root_host_def by (rule collect_snapshot [OF collect_demo_host])

section \<open>Properties of the snapshot\<close>

text \<open>
  C10 (swap-absent zeroing). Whenever the swap total the host reports is 0, the snapshot
  fields \<^verbatim>\<open>swap_total_gb\<close>, \<^verbatim>\<open>swap_used_gb\<close> and \<^verbatim>\<open>swap_percent\<close> are all the integer
  0: a number, not \<^verbatim>\<open>None\<close>, and no division has produced it.
\<close>

theorem swap_absent_zero:
  assumes "collect_metrics h s = (Inr m, s')"
    and "os_swap_memory h = Inr swap" and "sw_total swap = 0"
  shows "getitem m ''swap_total_gb'' = Inr (VInt 0) \<and>
         getitem m ''swap_used_gb'' = Inr (VInt 0) \<and>
         getitem m ''swap_percent'' = Inr (VInt 0)"
proof -
  from collect_metrics_Inr [OF assms(1)] assms(2)
  obtain dm hostname cpu cc cf la memory dio nio n where
    m: "m = finish_metrics dm (base_metrics (os_now h) hostname cpu cc cf la memory swap dio nio n)"
    by auto
  show ?thesis
    using assms(3) by (simp add: m getitem_def map_of_finish_metrics base_metrics_def)
qed

theorem swap_absent_zero_witness:
  "getitem (snapshot_of root_host) ''swap_total_gb'' = Inr (VInt 0) \<and>
   getitem (snapshot_of root_host) ''swap_used_gb'' = Inr (VInt 0) \<and>
   getitem (snapshot_of root_host) ''swap_percent'' = Inr (VInt 0)"
proof -
  have sw: "os_swap_memory root_host = Inr \<lparr> sw_total = 0, sw_used = 0, sw_percent = 0 \<rparr>"
    by (simp add: root_host_def demo_host_def)
  show ?thesis
    using swap_absent_zero [OF collect_root_host sw] by simp
qed

lemma tail5_suffix:
  "sfx \<in> set disk_suffixes \<Longrightarrow> take 5 (rev (n @ sfx)) = take 5 (rev sfx)"
  by (auto simp: disk_suffixes_def)

lemma tail5_inj:
  "sfx \<in> set disk_suffixes \<Longrightarrow> sfx' \<in> set disk_suffixes \<Longrightarrow>
   take 5 (rev sfx) = take 5 (rev sfx') \<Longrightarrow> sfx = sfx'"
  by (auto simp: disk_suffixes_def)

lemma disk_key_inject:
  assumes "sfx \<in> set disk_suffixes" and "sfx' \<in> set disk_suffixes"
    and "disk_key n sfx = disk_key n' sfx'"
  shows "n = n' \<and> sfx = sfx'"
proof -
  from assms(3) have e: "n @ sfx = n' @ sfx'" by (simp add: disk_key_def)
  then have "take 5 (rev (n @ sfx)) = take 5 (rev (n' @ sfx'))" by simp
  then have "take 5 (rev sfx) = take 5 (rev sfx')"
    by (simp only: tail5_suffix [OF assms(1)] tail5_suffix [OF assms(2)])
  then have "sfx = sfx'" by (rule tail5_inj [OF assms(1,2)])
  with e show ?thesis by simp
qed

lemma reserved_tail:
  "k \<in> set reserved_keys \<Longrightarrow> sfx \<in> set disk_suffixes \<Longrightarrow>
   prefix ''disk_'' k \<Longrightarrow> take 5 (rev k) \<noteq> take 5 (rev sfx)"
  by (auto simp: reserved_keys_def fixed_keys_def disk_suffixes_def)

lemma reserved_not_disk_key:
  assumes "k \<in> set reserved_keys" and "sfx \<in> set disk_suffixes"
  shows "k \<noteq> disk_key n sfx"
proof
  assume k: "k = disk_key n sfx"
  then have p: "prefix ''disk_'' k" by (simp add: disk_key_def)
  have "take 5 (rev k) = take 5 (rev ((''disk_'' @ n) @ sfx))" by (simp add: k disk_key_def)
  also have "\<dots> = take 5 (rev sfx)" by (rule tail5_suffix [OF assms(2)])
  finally show False using reserved_tail [OF assms p] by simp
qed

lemma keys_base_metrics:
  "keys (base_metrics ts hn cpu cc cf la mem sw dio nio pc) = fixed_keys"
  by (simp add: base_metrics_def keys_def fixed_keys_def)

lemma keys_disk_items: "keys (disk_items n i) = map (disk_key n) disk_suffixes"
  by (simp add: disk_items_def keys_def disk_suffixes_def)

lemma distinct_disk_suffixes: "distinct disk_suffixes"
  by (simp add: disk_suffixes_def)

lemma keys_append: "keys (a @ b) = keys a @ keys b"
  by (simp add: keys_def)

lemma keys_Cons: "keys ((k, v) # d) = k # keys d"
  by (simp add: keys_def)

lemma keys_Nil: "keys [] = []"
  by (simp add: keys_def)

lemma disk_key_same: "disk_key n a = disk_key n b \<longleftrightarrow> a = b"
  by (simp add: disk_key_def)

lemma add_disk_keys_fresh:
  assumes "\<forall>sfx\<in>set disk_suffixes. disk_key n sfx \<notin> set (keys m)"
  shows "add_disk_keys n i m = m @ disk_items n i"
  using assms
  by (simp add: add_disk_keys_def disk_items_def disk_suffixes_def setitem_fresh keys_append
        keys_Cons keys_Nil disk_key_same)

lemma keys_all_disk_items:
  "set (keys (all_disk_items dm)) = {disk_key n sfx | n sfx. n \<in> fst ` set dm \<and> sfx \<in> set disk_suffixes}"
proof (induction dm)
  case Nil
  show ?case by (simp add: all_disk_items_def keys_def)
next
  case (Cons a dm)
  obtain n i where a: "a = (n, i)" by (cases a)
  have step: "all_disk_items (a # dm) = disk_items n i @ all_disk_items dm"
    by (simp add: all_disk_items_def a)
  show ?case
    unfolding step keys_append set_append Cons.IH keys_disk_items
    by (auto simp: a)
qed

lemma add_disks_layout:
  assumes "distinct (map fst dm)"
    and "\<forall>n\<in>fst ` set dm. \<forall>sfx\<in>set disk_suffixes. disk_key n sfx \<notin> set (keys m)"
  shows "add_disks dm m u t =
           (m @ all_disk_items dm,
            u + sum_list (map di_used_bytes (counted dm)),
            t + sum_list (map di_total_bytes (counted dm)))"
  using assms
proof (induction dm arbitrary: m u t)
  case Nil
  show ?case by (simp add: all_disk_items_def counted_def)
next
  case (Cons a dm)
  obtain n i where a: "a = (n, i)" by (cases a)
  have "n \<in> fst ` set (a # dm)" by (simp add: a)
  with Cons.prems(2) have fresh_n: "\<forall>sfx\<in>set disk_suffixes. disk_key n sfx \<notin> set (keys m)"
    by blast
  have keys1: "add_disk_keys n i m = m @ disk_items n i"
    by (rule add_disk_keys_fresh [OF fresh_n])
  have d: "distinct (map fst dm)" and nn: "n \<notin> fst ` set dm"
    using Cons.prems(1) by (simp_all add: a)
  have fresh': "\<forall>n'\<in>fst ` set dm. \<forall>sfx\<in>set disk_suffixes.
                  disk_key n' sfx \<notin> set (keys (m @ disk_items n i))"
  proof (intro ballI)
    fix n' sfx
    assume n': "n' \<in> fst ` set dm" and sfx: "sfx \<in> set disk_suffixes"
    have "n' \<in> fst ` set (a # dm)" using n' by simp
    with Cons.prems(2) sfx have "disk_key n' sfx \<notin> set (keys m)" by blast
    moreover have "disk_key n' sfx \<notin> set (keys (disk_items n i))"
    proof
      assume "disk_key n' sfx \<in> set (keys (disk_items n i))"
      then obtain sfx' where "sfx' \<in> set disk_suffixes" and "disk_key n' sfx = disk_key n sfx'"
        by (auto simp: keys_disk_items)
      then have "n' = n" using disk_key_inject [OF sfx] by blast
      with n' nn show False by simp
    qed
    ultimately show "disk_key n' sfx \<notin> set (keys (m @ disk_items n i))"
      by (simp add: keys_append)
  qed
  have step: "all_disk_items (a # dm) = disk_items n i @ all_disk_items dm"
    by (simp add: all_disk_items_def a)
  show ?case
    unfolding step
    by (simp add: a keys1 Cons.IH [OF d fresh'] counted_def)
qed

lemma finish_metrics_layout:
  assumes "distinct (map fst dm)" and "keys base = fixed_keys"
  shows "finish_metrics dm base =
           base @ all_disk_items dm @
           aggregate_items (sum_list (map di_used_bytes (counted dm)))
             (sum_list (map di_total_bytes (counted dm))) @
           [(''disk_count'', VInt (int (length dm)))]"
proof -
  let ?used = "sum_list (map di_used_bytes (counted dm))"
  let ?total = "sum_list (map di_total_bytes (counted dm))"
  let ?m = "base @ all_disk_items dm"
  have fresh: "\<forall>n\<in>fst ` set dm. \<forall>sfx\<in>set disk_suffixes. disk_key n sfx \<notin> set (keys base)"
  proof (intro ballI)
    fix n sfx
    assume sfx: "sfx \<in> set disk_suffixes"
    show "disk_key n sfx \<notin> set (keys base)"
    proof
      assume "disk_key n sfx \<in> set (keys base)"
      then have "disk_key n sfx \<in> set reserved_keys" by (simp add: assms(2) reserved_keys_def)
      then have "disk_key n sfx \<noteq> disk_key n sfx" using sfx by (rule reserved_not_disk_key)
      then show False by simp
    qed
  qed
  have ad: "add_disks dm base 0 0 = (?m, ?used, ?total)"
    using add_disks_layout [OF assms(1) fresh, of 0 0] by simp
  have reserved: "k \<notin> set (keys ?m)"
    if "k \<in> set reserved_keys" and "k \<notin> set fixed_keys" for k
  proof
    assume "k \<in> set (keys ?m)"
    with that(2) have "k \<in> set (keys (all_disk_items dm))" by (simp add: keys_append assms(2))
    then obtain n sfx where sfx: "sfx \<in> set disk_suffixes" and k: "k = disk_key n sfx"
      by (auto simp: keys_all_disk_items)
    have "k \<noteq> disk_key n sfx" by (rule reserved_not_disk_key [OF that(1) sfx])
    with k show False by contradiction
  qed
  have t1: "''disk_total_all_gb'' \<notin> set (keys ?m)"
    by (rule reserved) (simp_all add: reserved_keys_def fixed_keys_def)
  have t2: "''disk_used_all_gb'' \<notin> set (keys ?m)"
    by (rule reserved) (simp_all add: reserved_keys_def fixed_keys_def)
  have t3: "''disk_percent_all'' \<notin> set (keys ?m)"
    by (rule reserved) (simp_all add: reserved_keys_def fixed_keys_def)
  have t4: "''disk_count'' \<notin> set (keys ?m)"
    by (rule reserved) (simp_all add: reserved_keys_def fixed_keys_def)
  have tot: "add_totals ?used ?total ?m = ?m @ aggregate_items ?used ?total"
    using t1 t2 t3
    by (simp add: add_totals_def aggregate_items_def setitem_fresh keys_append keys_Cons keys_Nil)
  have "''disk_count'' \<notin> set (keys (?m @ aggregate_items ?used ?total))"
    using t4 by (simp add: keys_append aggregate_items_def keys_Cons keys_Nil)
  then show ?thesis
    by (simp add: finish_metrics_def ad tot setitem_fresh)
qed

lemma distinct_setitems: "distinct (keys d) \<Longrightarrow> distinct (keys (setitems items d))"
proof (induction items arbitrary: d)
  case Nil
  then show ?case by simp
next
  case (Cons a items)
  obtain k v where a: "a = (k, v)" by (cases a)
  show ?case unfolding a setitems_Cons
    by (rule Cons.IH) (rule distinct_setitem [OF Cons.prems])
qed

lemma distinct_disk_dict: "distinct (map fst (disk_dict h ps))"
  using distinct_setitems [of "[]" "concat (map (disk_entry h) ps)"]
  by (simp add: disk_dict_def keys_def)

lemma snapshot_layout:
  assumes "collect_metrics h s = (Inr m, s')" and "os_disk_partitions h = Inr ps"
  shows "\<exists>fixed. keys fixed = fixed_keys \<and>
           m = fixed @ all_disk_items (disk_dict h ps) @
               aggregate_items (sum_list (map di_used_bytes (counted (disk_dict h ps))))
                 (sum_list (map di_total_bytes (counted (disk_dict h ps)))) @
               [(''disk_count'', VInt (int (length (disk_dict h ps))))]"
proof -
  from collect_metrics_Inr [OF assms(1)]
  obtain hostname cpu cc cf la memory swap ps' dio nio pc where
    ps': "os_disk_partitions h = Inr ps'" and
    m': "m = finish_metrics (disk_dict h ps')
              (base_metrics (os_now h) hostname cpu cc cf la memory swap dio nio pc)"
    by blast
  from ps' assms(2) have ps: "ps' = ps" by simp
  let ?base = "base_metrics (os_now h) hostname cpu cc cf la memory swap dio nio pc"
  have k: "keys ?base = fixed_keys" by (rule keys_base_metrics)
  have "m = ?base @ all_disk_items (disk_dict h ps) @
               aggregate_items (sum_list (map di_used_bytes (counted (disk_dict h ps))))
                 (sum_list (map di_total_bytes (counted (disk_dict h ps)))) @
               [(''disk_count'', VInt (int (length (disk_dict h ps))))]"
    unfolding m' ps by (rule finish_metrics_layout [OF distinct_disk_dict k])
  with k show ?thesis by blast
qed

lemma disk_entry_included:
  "disk_entry h p =
     (if included h p
      then (case os_disk_usage h (mountpoint p) of
              Inr usage \<Rightarrow> [(mount_name (mountpoint p), make_disk_info p usage)] | Inl e \<Rightarrow> [])
      else [])"
  by (simp add: disk_entry_def included_def split: sum.splits)

lemma disk_entries_filter:
  "concat (map (disk_entry h) (filter (included h) ps)) = concat (map (disk_entry h) ps)"
  by (induction ps) (simp_all add: disk_entry_included)

lemma disk_entry_partitions_update [simp]:
  "disk_entry (h\<lparr>os_disk_partitions := x\<rparr>) p = disk_entry h p"
  by (simp add: disk_entry_def)

lemma disk_dict_filter:
  "disk_dict (h\<lparr>os_disk_partitions := x\<rparr>) (filter (included h) ps) = disk_dict h ps"
proof -
  have "map (disk_entry (h\<lparr>os_disk_partitions := x\<rparr>)) = map (disk_entry h)"
    by (rule arg_cong [where f = map]) (rule ext, simp)
  then show ?thesis by (simp add: disk_dict_def disk_entries_filter)
qed

lemma set_setitem: "set (setitem k v d) \<subseteq> insert (k, v) (set d)"
proof (induction d)
  case Nil
  show ?case by simp
next
  case (Cons a d)
  obtain k' v' where a: "a = (k', v')" by (cases a)
  from Cons show ?case unfolding a by auto
qed

lemma set_setitems: "set (setitems items d) \<subseteq> set items \<union> set d"
proof (induction items arbitrary: d)
  case Nil
  show ?case by simp
next
  case (Cons a items)
  obtain k v where a: "a = (k, v)" by (cases a)
  have "set (setitems items (setitem k v d)) \<subseteq> set items \<union> set (setitem k v d)"
    by (rule Cons.IH)
  also have "\<dots> \<subseteq> set items \<union> insert (k, v) (set d)"
    using set_setitem [of k v d] by auto
  finally show ?case unfolding a setitems_Cons by auto
qed

lemma keys_setitems: "set (keys (setitems items d)) = fst ` set items \<union> set (keys d)"
proof (induction items arbitrary: d)
  case Nil
  show ?case by simp
next
  case (Cons a items)
  obtain k v where a: "a = (k, v)" by (cases a)
  show ?case unfolding a setitems_Cons Cons.IH keys_setitem by auto
qed

lemma disk_dict_entry:
  assumes "(n, i) \<in> set (disk_dict h ps)"
  shows "\<exists>p\<in>set ps. \<exists>u. included h p \<and> os_disk_usage h (mountpoint p) = Inr u \<and>
           n = mount_name (mountpoint p) \<and> i = make_disk_info p u"
proof -
  from assms set_setitems [of "concat (map (disk_entry h) ps)" "[]"]
  have "(n, i) \<in> set (concat (map (disk_entry h) ps))" by (auto simp: disk_dict_def)
  then obtain p where p: "p \<in> set ps" and e: "(n, i) \<in> set (disk_entry h p)" by auto
  show ?thesis
  proof (cases "os_disk_usage h (mountpoint p)")
    case (Inl x)
    with e show ?thesis by (simp add: disk_entry_def split: if_splits)
  next
    case (Inr u)
    with e have sp: "fstype p \<notin> set special_fstypes"
      and ni: "n = mount_name (mountpoint p)" "i = make_disk_info p u"
      by (simp_all add: disk_entry_def split: if_splits)
    from sp Inr have "included h p" by (simp add: included_def)
    with p Inr ni show ?thesis by blast
  qed
qed

lemma names_disk_dict:
  "set (keys (disk_dict h ps)) = (\<lambda>p. mount_name (mountpoint p)) ` {p \<in> set ps. included h p}"
proof -
  have "fst ` set (disk_entry h p) = (if included h p then {mount_name (mountpoint p)} else {})" for p
    by (cases "os_disk_usage h (mountpoint p)") (simp_all add: disk_entry_def included_def)
  then have "fst ` set (concat (map (disk_entry h) ps)) =
             (\<lambda>p. mount_name (mountpoint p)) ` {p \<in> set ps. included h p}"
    by (auto simp: image_Union split: if_splits)
  then show ?thesis by (simp add: disk_dict_def keys_setitems keys_Nil)
qed

lemma disk_count_finish:
  "getitem (finish_metrics dm base) ''disk_count'' = Inr (VInt (int (length dm)))"
  by (simp add: finish_metrics_def getitem_def map_of_setitem split: prod.splits)



lemma map_of_append_left: "k \<notin> set (keys xs) \<Longrightarrow> map_of (xs @ ys) k = map_of ys k"
  by (simp add: map_add_def keys_def map_of_eq_None_iff [THEN iffD2])



lemma disk_field_Some: "sfx \<in> set disk_suffixes \<Longrightarrow> disk_field sfx i \<noteq> None"
  by (auto simp: disk_field_def disk_items_def disk_suffixes_def disk_key_same)



section \<open>The disk dictionary: the last partition of a name\<close>






lemma counted_filter:
  "counted dm =
     filter (\<lambda>i. \<not> sublist ''overlay'' (di_fstype i) \<and> \<not> sublist ''squashfs'' (di_fstype i))
       (map snd dm)"
  by (simp add: counted_def is_layered_def)

lemma disk_dict_fstype:
  assumes "i \<in> set (map snd (disk_dict h ps))"
  shows "di_fstype i \<notin> set special_fstypes"
proof -
  from assms obtain n where "(n, i) \<in> set (disk_dict h ps)" by auto
  from disk_dict_entry [OF this] obtain p u where
    p: "included h p" and i: "i = make_disk_info p u"
    by blast
  from p have "fstype p \<notin> set special_fstypes" by (simp add: included_def)
  then show ?thesis by (simp add: i make_disk_info_def)
qed

section \<open>Evaluating the simulated hosts: the disk keys\<close>

lemma demo_snapshot:
  assumes "h = demo_host ps du"
  shows "\<exists>fixed. keys fixed = fixed_keys \<and> snapshot_of h = fixed @ disk_tail (disk_dict h ps)"
proof -
  have c: "collect_metrics h io0 = (Inr (snapshot_of h), snd (collect_metrics h io0))"
    unfolding assms by (rule collect_snapshot [OF collect_demo_host])
  have p: "os_disk_partitions h = Inr ps" by (simp add: assms demo_host_def)
  from snapshot_layout [OF c p] show ?thesis unfolding disk_tail_def .
qed

lemma getitem_demo:
  assumes "h = demo_host ps du" and "k \<notin> set fixed_keys"
  shows "getitem (snapshot_of h) k = getitem (disk_tail (disk_dict h ps)) k"
proof -
  from demo_snapshot [OF assms(1)] obtain fixed where
    f: "keys fixed = fixed_keys" and s: "snapshot_of h = fixed @ disk_tail (disk_dict h ps)"
    by blast
  from assms(2) f have "k \<notin> set (keys fixed)" by simp
  then have "map_of (fixed @ disk_tail (disk_dict h ps)) k = map_of (disk_tail (disk_dict h ps)) k"
    by (rule map_of_append_left)
  then show ?thesis by (simp only: s getitem_def)
qed

lemma getitem_Cons: "getitem ((k', v) # d) k = (if k' = k then Inr v else getitem d k)"
  by (simp add: getitem_def)

lemma getitem_Nil: "getitem [] k = Inl (KeyError k)"
  by (simp add: getitem_def)

lemma collect_pct_host:
  "collect_metrics pct_host io0 = (Inr (snapshot_of pct_host), snd (collect_metrics pct_host io0))"
  unfolding pct_host_def by (rule collect_snapshot [OF collect_demo_host])

lemma parts_pct_host: "os_disk_partitions pct_host = Inr pct_parts"
  by (simp add: pct_host_def demo_host_def)

lemma pct_tail:
  "all_disk_items (disk_dict pct_host pct_parts) @
   aggregate_items (sum_list (map di_used_bytes (counted (disk_dict pct_host pct_parts))))
     (sum_list (map di_total_bytes (counted (disk_dict pct_host pct_parts)))) @
   [(''disk_count'', VInt (int (length (disk_dict pct_host pct_parts))))] =
   [(''disk_root_total_gb'', VFloat 160), (''disk_root_used_gb'', VFloat 23),
    (''disk_root_free_gb'', VFloat 137),
    (''disk_root_percent'', VFloat (nearest_double (144 / 10))),
    (''disk_root_device'', VStr ''sda1''), (''disk_root_fstype'', VStr ''ext4''),
    (''disk_total_all_gb'', VFloat 160), (''disk_used_all_gb'', VFloat 23),
    (''disk_percent_all'', VFloat (nearest_double (1437 / 100))),
    (''disk_count'', VInt 1)]"
  by code_simp

lemma fuse_tail:
  "disk_tail (disk_dict fuse_host fuse_parts) =
   [(''disk_root_total_gb'', VFloat 100), (''disk_root_used_gb'', VFloat 40),
    (''disk_root_free_gb'', VFloat 60), (''disk_root_percent'', VFloat 40),
    (''disk_root_device'', VStr ''sda1''), (''disk_root_fstype'', VStr ''ext4''),
    (''disk_var_lib_containers_total_gb'', VFloat 50),
    (''disk_var_lib_containers_used_gb'', VFloat 10),
    (''disk_var_lib_containers_free_gb'', VFloat 40),
    (''disk_var_lib_containers_percent'', VFloat 20),
    (''disk_var_lib_containers_device'', VStr ''fuse-overlayfs''),
    (''disk_var_lib_containers_fstype'', VStr ''fuse.overlayfs''),
    (''disk_total_all_gb'', VFloat 100), (''disk_used_all_gb'', VFloat 40),
    (''disk_percent_all'', VFloat 40), (''disk_count'', VInt 2)]"
  by code_simp

lemma fuse_part:
  "fstype (fuse_parts ! 1) = ''fuse.overlayfs'' \<and>
   fstype (fuse_parts ! 1) \<notin> set special_fstypes \<and>
   included fuse_host (fuse_parts ! 1) \<and>
   is_layered (fstype (fuse_parts ! 1))"
  by code_simp






section \<open>Properties of the disk fields\<close>

text \<open>
  In a snapshot, a \<^verbatim>\<open>fuse.overlayfs\<close> partition passes the filter on the filesystem type
  that \<^verbatim>\<open>get_disk_metrics\<close> applies, which is a membership test, and has its six keys and
  its place in \<^verbatim>\<open>disk_count\<close>; the test before the accumulation is a substring test, and
  leaves the 50 GiB of that partition out of the totals.
\<close>

theorem layered_not_upstream_filter:
  "fstype (fuse_parts ! 1) = ''fuse.overlayfs'' \<and>
   fstype (fuse_parts ! 1) \<notin> set special_fstypes \<and>
   included fuse_host (fuse_parts ! 1) \<and>
   is_layered (fstype (fuse_parts ! 1)) \<and>
   getitem (snapshot_of fuse_host) ''disk_var_lib_containers_total_gb'' = Inr (VFloat 50) \<and>
   getitem (snapshot_of fuse_host) ''disk_root_total_gb'' = Inr (VFloat 100) \<and>
   getitem (snapshot_of fuse_host) ''disk_count'' = Inr (VInt 2) \<and>
   getitem (snapshot_of fuse_host) ''disk_total_all_gb'' = Inr (VFloat 100) \<and>
   getitem (snapshot_of fuse_host) ''disk_used_all_gb'' = Inr (VFloat 40)"
proof -
  have "getitem (snapshot_of fuse_host) ''disk_var_lib_containers_total_gb'' = Inr (VFloat 50) \<and>
   getitem (snapshot_of fuse_host) ''disk_root_total_gb'' = Inr (VFloat 100) \<and>
   getitem (snapshot_of fuse_host) ''disk_count'' = Inr (VInt 2) \<and>
   getitem (snapshot_of fuse_host) ''disk_total_all_gb'' = Inr (VFloat 100) \<and>
   getitem (snapshot_of fuse_host) ''disk_used_all_gb'' = Inr (VFloat 40)"
    by (simp add: getitem_demo [OF fuse_host_def] fixed_keys_def fuse_tail getitem_Cons)
  with fuse_part show ?thesis by blast
qed

text \<open>
  C6 (aggregate disk totals), as the program has it. The snapshot is the fixed keys, then
  the six keys of every entry of the disk dictionary in its order, then the aggregate
  keys, then \<^verbatim>\<open>disk_count\<close>. The aggregates are accumulated from the used and total bytes
  of exactly the dictionary entries whose filesystem type contains neither \<^verbatim>\<open>overlay\<close>
  nor \<^verbatim>\<open>squashfs\<close> as a substring. This is another test than the one applied upstream:
  every entry of the dictionary has passed the membership test on the excluded set
  already, and the substring test removes entries that one has let through. The aggregates
  are present only when the accumulated size is positive, and \<^verbatim>\<open>disk_percent_all\<close> is used
  bytes over total bytes times 100 in double arithmetic, rounded to 2 decimals.
\<close>

theorem aggregate_totals:
  assumes "collect_metrics h s = (Inr m, s')" and "os_disk_partitions h = Inr ps"
  shows "(\<exists>fixed. keys fixed = fixed_keys \<and>
            m = fixed @ all_disk_items (disk_dict h ps) @
                aggregate_items (sum_list (map di_used_bytes (counted (disk_dict h ps))))
                  (sum_list (map di_total_bytes (counted (disk_dict h ps)))) @
                [(''disk_count'', VInt (int (length (disk_dict h ps))))]) \<and>
         counted (disk_dict h ps) =
           filter (\<lambda>i. \<not> sublist ''overlay'' (di_fstype i) \<and> \<not> sublist ''squashfs'' (di_fstype i))
             (map snd (disk_dict h ps)) \<and>
         (\<forall>i\<in>set (map snd (disk_dict h ps)). di_fstype i \<notin> set special_fstypes) \<and>
         (\<forall>u t. 0 < t \<longrightarrow>
            aggregate_items u t =
              [(''disk_total_all_gb'', VFloat (round2 (nearest_double (of_int t / 1024 ^ 3)))),
               (''disk_used_all_gb'', VFloat (round2 (nearest_double (of_int u / 1024 ^ 3)))),
               (''disk_percent_all'',
                VFloat (round2 (nearest_double (nearest_double (of_int u / of_int t) * 100))))]) \<and>
         (\<forall>u t. t \<le> 0 \<longrightarrow> aggregate_items u t = [])"
proof -
  have a: "\<exists>fixed. keys fixed = fixed_keys \<and>
            m = fixed @ all_disk_items (disk_dict h ps) @
                aggregate_items (sum_list (map di_used_bytes (counted (disk_dict h ps))))
                  (sum_list (map di_total_bytes (counted (disk_dict h ps)))) @
                [(''disk_count'', VInt (int (length (disk_dict h ps))))]"
    by (rule snapshot_layout [OF assms])
  have b: "\<forall>i\<in>set (map snd (disk_dict h ps)). di_fstype i \<notin> set special_fstypes"
    using disk_dict_fstype by blast
  have c: "\<forall>u t. 0 < t \<longrightarrow>
            aggregate_items u t =
              [(''disk_total_all_gb'', VFloat (round2 (nearest_double (of_int t / 1024 ^ 3)))),
               (''disk_used_all_gb'', VFloat (round2 (nearest_double (of_int u / 1024 ^ 3)))),
               (''disk_percent_all'',
                VFloat (round2 (nearest_double (nearest_double (of_int u / of_int t) * 100))))]"
    by (simp add: aggregate_items_def per_gib_def)
  have d: "\<forall>u t. t \<le> 0 \<longrightarrow> aggregate_items u t = []"
    by (simp add: aggregate_items_def)
  from a b c d counted_filter [of "disk_dict h ps"] show ?thesis by blast
qed

theorem aggregate_totals_witness:
  "\<exists>fixed. keys fixed = fixed_keys \<and>
     snapshot_of pct_host =
       fixed @
       [(''disk_root_total_gb'', VFloat 160), (''disk_root_used_gb'', VFloat 23),
        (''disk_root_free_gb'', VFloat 137),
        (''disk_root_percent'', VFloat (nearest_double (144 / 10))),
        (''disk_root_device'', VStr ''sda1''), (''disk_root_fstype'', VStr ''ext4''),
        (''disk_total_all_gb'', VFloat 160), (''disk_used_all_gb'', VFloat 23),
        (''disk_percent_all'', VFloat (nearest_double (1437 / 100))),
        (''disk_count'', VInt 1)]"
  using aggregate_totals [OF collect_pct_host parts_pct_host, THEN conjunct1]
  unfolding pct_tail .



end
